theory Spec2Isabelle
  imports Main "HOL-Library.Sublist"
begin

section \<open>Data model (types/nexlayer.ts)\<close>

text \<open>
  The interfaces of \<^verbatim>\<open>types/nexlayer.ts\<close> as records. An optional field
  (\<^verbatim>\<open>servicePorts?: number[]\<close>) is an \<open>option\<close>: \<open>None\<close> is \<^verbatim>\<open>undefined\<close>.
  Field names that two interfaces share (\<^verbatim>\<open>name\<close>, \<^verbatim>\<open>pods\<close>) get a prefix.
  A port is a JavaScript number. The model's ports are integers; they are the program's
  ports for the safe integers (\<open>isSafeInteger\<close> below), which a number holds exactly and
  a template literal prints as their decimal numeral.
  \<^verbatim>\<open>vars\<close> is a \<^verbatim>\<open>Record<string, string>\<close> that the code only reads through
  \<^verbatim>\<open>Object.keys\<close> and \<^verbatim>\<open>Object.entries\<close>: the model keeps the sequence of entries
  in the order \<^verbatim>\<open>Object.entries\<close> yields them.
\<close>

record NexlayerConfig =
  sessionToken :: "string option"
  baseUrl :: "string option"

record SecretConfig =
  secret_name :: string
  secret_data :: string
  mountPath :: string
  fileName :: string

record PodConfig =
  pod_name :: string
  image :: string
  servicePorts :: "int list option"
  vars :: "(string \<times> string) list option"
  secrets :: "SecretConfig list option"

record Application =
  app_name :: string
  pods :: "PodConfig list"

record NexlayerYaml =
  application :: Application

record GenerateNexlayerYamlParams =
  applicationName :: string
  params_pods :: "PodConfig list"
  outputPath :: "string option"

record ValidateYamlParams =
  yamlContent :: string

record ValidationResult =
  valid :: bool
  errors :: "string list option"
  warnings :: "string list option"

text \<open>
  The \<^verbatim>\<open>data\<close> of a response body is read with \<^verbatim>\<open>response.data.data!\<close>, which
  checks nothing: it may be absent (\<^verbatim>\<open>undefined\<close>), \<^verbatim>\<open>null\<close>, or a value.
\<close>

datatype 'a js_optional = Undefined | Null | Defined 'a

record 'a NexlayerApiResponse =
  resp_success :: bool
  resp_data :: "'a js_optional"
  resp_error :: "string option"
  resp_message :: "string option"

section \<open>Numbers in template literals\<close>

definition digit_char :: "nat \<Rightarrow> char" where
  "digit_char d = ''0123456789'' ! (d mod 10)"

fun show_nat :: "nat \<Rightarrow> string" where
  "show_nat n = (if n < 10 then [digit_char n] else show_nat (n div 10) @ [digit_char (n mod 10)])"

declare show_nat.simps [simp del]

definition show_int :: "int \<Rightarrow> string" where
  "show_int i = (if i < 0 then CHR ''-'' # show_nat (nat (- i)) else show_nat (nat i))"

text \<open>
  \<^verbatim>\<open>Number.isSafeInteger\<close>: the integers of magnitude at most \<^verbatim>\<open>2^53 - 1\<close>. On
  these \<open>show_int\<close> is the text of \<^verbatim>\<open>${port}\<close>; a larger number need not be an
  integer the type holds exactly, and from \<^verbatim>\<open>10^21\<close> on the program prints an exponent
  form. Every claim below that spells out a port's numeral is stated for safe integers.
\<close>

definition isSafeInteger :: "int \<Rightarrow> bool" where
  "isSafeInteger q = (- 9007199254740991 \<le> q \<and> q \<le> 9007199254740991)"

section \<open>NexlayerApiClient.generateYaml and yamlToString (services/nexlayer-api.ts)\<close>

text \<open>
  \<^verbatim>\<open>yamlToString\<close> appends to the local \<^verbatim>\<open>yamlString\<close>; every \<^verbatim>\<open>forEach\<close> is a
  left fold whose accumulator is that string. The guard
  \<^verbatim>\<open>pod.servicePorts && pod.servicePorts.length > 0\<close> is false for an absent field and
  for an empty array.
\<close>

definition yamlToString_port :: "string \<Rightarrow> int \<Rightarrow> string" where
  \<open>yamlToString_port yamlString port = yamlString @ ''        - '' @ show_int port @ ''\<newline>''\<close>

definition yamlToString_var :: "string \<Rightarrow> string \<times> string \<Rightarrow> string" where
  \<open>yamlToString_var yamlString kv =
     yamlString @ ''        '' @ fst kv @ '': "'' @ snd kv @ ''"\<newline>''\<close>

definition yamlToString_secret :: "string \<Rightarrow> SecretConfig \<Rightarrow> string" where
  \<open>yamlToString_secret yamlString0 secret =
     (let yamlString = yamlString0 @ ''        - name: "'' @ secret_name secret @ ''"\<newline>'';
          yamlString = yamlString @ ''          data: "'' @ secret_data secret @ ''"\<newline>'';
          yamlString = yamlString @ ''          mountPath: "'' @ mountPath secret @ ''"\<newline>'';
          yamlString = yamlString @ ''          fileName: "'' @ fileName secret @ ''"\<newline>''
      in yamlString)\<close>

definition yamlToString_pod :: "string \<Rightarrow> PodConfig \<Rightarrow> string" where
  \<open>yamlToString_pod yamlString0 pod =
     (let yamlString = yamlString0 @ ''    - name: "'' @ pod_name pod @ ''"\<newline>'';
          yamlString = yamlString @ ''      image: "'' @ image pod @ ''"\<newline>'';
          yamlString =
            (case servicePorts pod of
               None \<Rightarrow> yamlString
             | Some ports \<Rightarrow>
                 if length ports > 0
                 then foldl yamlToString_port (yamlString @ ''      servicePorts:\<newline>'') ports
                 else yamlString);
          yamlString =
            (case vars pod of
               None \<Rightarrow> yamlString
             | Some entries \<Rightarrow>
                 if length entries > 0
                 then foldl yamlToString_var (yamlString @ ''      vars:\<newline>'') entries
                 else yamlString);
          yamlString =
            (case secrets pod of
               None \<Rightarrow> yamlString
             | Some ss \<Rightarrow>
                 if length ss > 0
                 then foldl yamlToString_secret (yamlString @ ''      secrets:\<newline>'') ss
                 else yamlString)
      in yamlString)\<close>

definition yamlToString :: "NexlayerYaml \<Rightarrow> string" where
  \<open>yamlToString yaml =
     (let yamlString = ''application:\<newline>'';
          yamlString = yamlString @ ''  name: "'' @ app_name (application yaml) @ ''"\<newline>'';
          yamlString = yamlString @ ''  pods:\<newline>''
      in foldl yamlToString_pod yamlString (pods (application yaml)))\<close>

definition generateYaml :: "string \<Rightarrow> PodConfig list \<Rightarrow> string" where
  "generateYaml applicationName' pods' =
     (let yaml = \<lparr>application = \<lparr>app_name = applicationName', pods = pods'\<rparr>\<rparr>
      in yamlToString yaml)"

section \<open>FileGenerator.generateNexlayerYaml (services/file-generator.ts)\<close>

definition generateNexlayerYaml_port :: "string \<Rightarrow> int \<Rightarrow> string" where
  \<open>generateNexlayerYaml_port yaml port = yaml @ ''\<newline>      - '' @ show_int port\<close>

definition generateNexlayerYaml_var :: "string \<Rightarrow> string \<times> string \<Rightarrow> string" where
  \<open>generateNexlayerYaml_var yaml kv = yaml @ ''\<newline>      '' @ fst kv @ '': '' @ snd kv\<close>

definition generateNexlayerYaml_pod :: "string \<Rightarrow> PodConfig \<Rightarrow> string" where
  \<open>generateNexlayerYaml_pod yaml0 pod =
     (let yaml = yaml0 @ ''\<newline>  - name: '' @ pod_name pod;
          yaml = yaml @ ''\<newline>    image: '' @ image pod;
          yaml =
            (case servicePorts pod of
               None \<Rightarrow> yaml
             | Some ports \<Rightarrow>
                 if length ports > 0
                 then foldl generateNexlayerYaml_port (yaml @ ''\<newline>    servicePorts:'') ports
                 else yaml);
          yaml =
            (case vars pod of
               None \<Rightarrow> yaml
             | Some entries \<Rightarrow>
                 if length entries > 0
                 then foldl generateNexlayerYaml_var (yaml @ ''\<newline>    vars:'') entries
                 else yaml)
      in yaml)\<close>

definition generateNexlayerYaml :: "GenerateNexlayerYamlParams \<Rightarrow> string" where
  \<open>generateNexlayerYaml params =
     (let yaml = ''application:\<newline>  name: '' @ applicationName params
                 @ ''\<newline>  description: '' @ applicationName params @ '' application''
                 @ ''\<newline>\<newline>pods:''
      in foldl generateNexlayerYaml_pod yaml (params_pods params))\<close>

section \<open>The cached client (index.ts, getClient)\<close>

text \<open>
  The module keeps one mutable binding, \<^verbatim>\<open>let nexlayerClient: NexlayerApiClient | null\<close>.
  The constructor stores the configuration and creates the axios instance, of which the
  model keeps the base URL (\<^verbatim>\<open>config.baseUrl || 'https://app.nexlayer.io'\<close>).
\<close>

record NexlayerApiClient =
  config :: NexlayerConfig
  baseURL :: string

record module_state =
  nexlayerClient :: "NexlayerApiClient option"

definition new_NexlayerApiClient :: "NexlayerConfig \<Rightarrow> NexlayerApiClient" where
  "new_NexlayerApiClient cfg =
     \<lparr>config = cfg,
      baseURL = (case baseUrl cfg of
                   None \<Rightarrow> ''https://app.nexlayer.io''
                 | Some u \<Rightarrow> if u = [] then ''https://app.nexlayer.io'' else u)\<rparr>"

definition getClient :: "string option \<Rightarrow> module_state \<Rightarrow> NexlayerApiClient \<times> module_state" where
  "getClient sessionToken' s =
     (case nexlayerClient s of
        None \<Rightarrow>
          (let c = new_NexlayerApiClient
                     \<lparr>sessionToken = sessionToken', baseUrl = Some ''https://app.nexlayer.io''\<rparr>
           in (c, s\<lparr>nexlayerClient := Some c\<rparr>))
      | Some c \<Rightarrow> (c, s))"

text \<open>Successive calls of the tool handlers, one token argument per call.\<close>

fun getClient_calls :: "string option list \<Rightarrow> module_state \<Rightarrow> NexlayerApiClient list \<times> module_state" where
  "getClient_calls [] s = ([], s)"
| "getClient_calls (t # ts) s =
     (let (c, s') = getClient t s; (cs, s'') = getClient_calls ts s' in (c # cs, s''))"

section \<open>Validation (NexlayerApiClient.validateYaml and the validate-yaml tool)\<close>

text \<open>
  \<^verbatim>\<open>validateYaml\<close> posts the text to \<^verbatim>\<open>/validate\<close>. The HTTP exchange is the
  collaborator \<open>post\<close>, a parameter of the model: given the base URL of the axios instance,
  the path and the posted text it either rejects with an error, of which the code reads
  \<^verbatim>\<open>error.response?.data?.error\<close> and \<^verbatim>\<open>error.message\<close>, or resolves with a response
  body. \<^verbatim>\<open>a || b\<close> on strings takes \<open>b\<close> when \<open>a\<close> is absent or empty. The response
  interceptor of the client logs a failed request and throws the same error again; the log
  is not part of the model. A method's \<^verbatim>\<open>throw new Error(m)\<close> is the result \<open>Inl (Error m)\<close>;
  the tool's handler catches it and answers with its message.
\<close>

record AxiosError =
  response_data_error :: "string option"
  error_message :: string

datatype 'a axios_outcome = Rejected AxiosError | Fulfilled 'a

datatype js_error = Error string

type_synonym http_post =
  "string \<Rightarrow> string \<Rightarrow> string \<Rightarrow> ValidationResult NexlayerApiResponse axios_outcome"

fun js_join :: "string \<Rightarrow> string list \<Rightarrow> string" where
  "js_join sep [] = []"
| "js_join sep [x] = x"
| "js_join sep (x # y # ys) = x @ sep @ js_join sep (y # ys)"

definition or_else :: "string option \<Rightarrow> string \<Rightarrow> string" where
  "or_else a b = (case a of None \<Rightarrow> b | Some x \<Rightarrow> if x = [] then b else x)"

definition validateYaml ::
  "NexlayerApiClient \<Rightarrow> http_post \<Rightarrow> ValidateYamlParams
     \<Rightarrow> js_error + ValidationResult js_optional" where
  "validateYaml this post params =
     (case post (baseURL this) ''/validate'' (yamlContent params) of
        Fulfilled response \<Rightarrow> Inr (resp_data response)
      | Rejected e \<Rightarrow>
          Inl (Error (''Failed to validate YAML: ''
                      @ or_else (response_data_error e) (error_message e))))"

text \<open>
  The message of the \<^verbatim>\<open>TypeError\<close> that reading \<^verbatim>\<open>result.valid\<close> raises when the
  response carried no \<^verbatim>\<open>data\<close>; it names what was read from, \<^verbatim>\<open>undefined\<close> or
  \<^verbatim>\<open>null\<close> (the wording is the engine's, here V8's). The optional fields
  \<^verbatim>\<open>errors\<close> and \<^verbatim>\<open>warnings\<close> are only read through \<^verbatim>\<open>?.\<close>, which treats
  \<^verbatim>\<open>null\<close> and \<^verbatim>\<open>undefined\<close> alike: \<open>None\<close> stands for both.
\<close>

definition cannot_read_valid :: "string \<Rightarrow> string" where
  "cannot_read_valid what =
     ''Cannot read properties of '' @ what @ '' (reading '' @ [CHR 0x27] @ ''valid''
     @ [CHR 0x27] @ '')''"

definition validate_yaml_tool ::
  "http_post \<Rightarrow> ValidateYamlParams \<Rightarrow> module_state \<Rightarrow> string \<times> module_state" where
  \<open>validate_yaml_tool post params s =
     (let (client, s') = getClient None s
      in (case validateYaml client post \<lparr>yamlContent = yamlContent params\<rparr> of
            Inl (Error message) \<Rightarrow> ''Failed to validate YAML: '' @ message
          | Inr Undefined \<Rightarrow> ''Failed to validate YAML: '' @ cannot_read_valid ''undefined''
          | Inr Null \<Rightarrow> ''Failed to validate YAML: '' @ cannot_read_valid ''null''
          | Inr (Defined result) \<Rightarrow>
              if valid result
              then ''YAML is valid!''
                   @ (case warnings result of
                        None \<Rightarrow> []
                      | Some ws \<Rightarrow>
                          if length ws \<noteq> 0 then ''\<newline>Warnings: '' @ js_join '', '' ws else [])
              else ''YAML validation failed:\<newline>Errors: ''
                   @ or_else (map_option (js_join ''\<newline>'') (errors result)) ''Unknown error'',
          s'))\<close>

section \<open>Derived forms of the two serializers\<close>

text \<open>
  The text each entry contributes, and the text of a whole pod, as functions of the entry
  alone; the lemmas below prove that the folds of the source compute exactly these.
  \<open>ports_of\<close>, \<open>vars_of\<close> and \<open>secrets_of\<close> read an optional collection, an absent one
  as the empty one.
\<close>

definition ports_of :: "PodConfig \<Rightarrow> int list" where
  "ports_of pod = (case servicePorts pod of None \<Rightarrow> [] | Some ports \<Rightarrow> ports)"

definition vars_of :: "PodConfig \<Rightarrow> (string \<times> string) list" where
  "vars_of pod = (case vars pod of None \<Rightarrow> [] | Some entries \<Rightarrow> entries)"

definition secrets_of :: "PodConfig \<Rightarrow> SecretConfig list" where
  "secrets_of pod = (case secrets pod of None \<Rightarrow> [] | Some ss \<Rightarrow> ss)"

definition port_line :: "int \<Rightarrow> string" where
  \<open>port_line port = ''        - '' @ show_int port @ ''\<newline>''\<close>

definition var_line :: "string \<times> string \<Rightarrow> string" where
  \<open>var_line kv = ''        '' @ fst kv @ '': "'' @ snd kv @ ''"\<newline>''\<close>

definition secret_lines :: "SecretConfig \<Rightarrow> string" where
  \<open>secret_lines secret =
     ''        - name: "'' @ secret_name secret @ ''"\<newline>''
     @ ''          data: "'' @ secret_data secret @ ''"\<newline>''
     @ ''          mountPath: "'' @ mountPath secret @ ''"\<newline>''
     @ ''          fileName: "'' @ fileName secret @ ''"\<newline>''\<close>

definition section_of :: "string \<Rightarrow> ('a \<Rightarrow> string) \<Rightarrow> 'a list \<Rightarrow> string" where
  "section_of header line xs = (if xs = [] then [] else header @ concat (map line xs))"

definition pod_head :: "PodConfig \<Rightarrow> string" where
  \<open>pod_head pod = ''    - name: "'' @ pod_name pod @ ''"\<newline>''
                   @ ''      image: "'' @ image pod @ ''"\<newline>''\<close>

definition pod_block :: "PodConfig \<Rightarrow> string" where
  \<open>pod_block pod =
     pod_head pod
     @ section_of ''      servicePorts:\<newline>'' port_line (ports_of pod)
     @ section_of ''      vars:\<newline>'' var_line (vars_of pod)
     @ section_of ''      secrets:\<newline>'' secret_lines (secrets_of pod)\<close>

definition manifest_head :: "string \<Rightarrow> string" where
  \<open>manifest_head n = ''application:\<newline>  name: "'' @ n @ ''"\<newline>  pods:\<newline>''\<close>

definition file_port_line :: "int \<Rightarrow> string" where
  \<open>file_port_line port = ''\<newline>      - '' @ show_int port\<close>

definition file_var_line :: "string \<times> string \<Rightarrow> string" where
  \<open>file_var_line kv = ''\<newline>      '' @ fst kv @ '': '' @ snd kv\<close>

definition file_pod_head :: "PodConfig \<Rightarrow> string" where
  \<open>file_pod_head pod = ''\<newline>  - name: '' @ pod_name pod @ ''\<newline>    image: '' @ image pod\<close>

definition file_pod_block :: "PodConfig \<Rightarrow> string" where
  \<open>file_pod_block pod =
     file_pod_head pod
     @ section_of ''\<newline>    servicePorts:'' file_port_line (ports_of pod)
     @ section_of ''\<newline>    vars:'' file_var_line (vars_of pod)\<close>

definition file_head :: "string \<Rightarrow> string" where
  \<open>file_head n = ''application:\<newline>  name: '' @ n @ ''\<newline>  description: '' @ n
                 @ '' application\<newline>\<newline>pods:''\<close>

section \<open>The manifest model of the specification\<close>

text \<open>
  The source checks nothing before it renders. The predicates here state the validity
  constraints that the specification puts on an Application (its sections 3 and 4.1), so
  that claims about "valid Applications" can be stated; \<open>app_view\<close> is the structure
  the specification compares Applications by: the name and, for each pod, its name, image,
  ports, variables and secrets.
\<close>

definition valid_secret :: "SecretConfig \<Rightarrow> bool" where
  "valid_secret s = (secret_name s \<noteq> [] \<and> mountPath s \<noteq> [] \<and> fileName s \<noteq> [])"

definition valid_port :: "int \<Rightarrow> bool" where
  "valid_port q = (1 \<le> q \<and> q \<le> 65535)"

definition valid_pod :: "PodConfig \<Rightarrow> bool" where
  "valid_pod pod =
     (pod_name pod \<noteq> [] \<and> image pod \<noteq> []
      \<and> list_all valid_port (ports_of pod) \<and> distinct (ports_of pod)
      \<and> list_all (\<lambda>kv. fst kv \<noteq> []) (vars_of pod) \<and> distinct (map fst (vars_of pod))
      \<and> list_all valid_secret (secrets_of pod))"

definition valid_application :: "NexlayerYaml \<Rightarrow> bool" where
  "valid_application yaml =
     (app_name (application yaml) \<noteq> [] \<and> pods (application yaml) \<noteq> []
      \<and> distinct (map pod_name (pods (application yaml)))
      \<and> list_all valid_pod (pods (application yaml)))"

type_synonym pod_view =
  "string \<times> string \<times> int list \<times> (string \<times> string) list \<times> SecretConfig list"

definition pod_view :: "PodConfig \<Rightarrow> pod_view" where
  "pod_view pod = (pod_name pod, image pod, ports_of pod, vars_of pod, secrets_of pod)"

definition app_view :: "NexlayerYaml \<Rightarrow> string \<times> pod_view list" where
  "app_view yaml = (app_name (application yaml), map pod_view (pods (application yaml)))"

text \<open>Strings that hold no double quote, the one character that ends a quoted scalar.\<close>

definition quote_free :: "string \<Rightarrow> bool" where
  "quote_free s = (CHR 0x22 \<notin> set s)"

definition quote_free_secret :: "SecretConfig \<Rightarrow> bool" where
  "quote_free_secret s =
     (quote_free (secret_name s) \<and> quote_free (secret_data s)
      \<and> quote_free (mountPath s) \<and> quote_free (fileName s))"

definition quote_free_var :: "string \<times> string \<Rightarrow> bool" where
  "quote_free_var kv = (quote_free (fst kv) \<and> quote_free (snd kv))"

definition quote_free_pod :: "PodConfig \<Rightarrow> bool" where
  "quote_free_pod pod =
     (quote_free (pod_name pod) \<and> quote_free (image pod)
      \<and> list_all quote_free_var (vars_of pod)
      \<and> list_all quote_free_secret (secrets_of pod))"

definition quote_free_application :: "NexlayerYaml \<Rightarrow> bool" where
  "quote_free_application yaml =
     (quote_free (app_name (application yaml))
      \<and> list_all quote_free_pod (pods (application yaml)))"

section \<open>Two validation endpoints and a manifest, for the examples\<close>

text \<open>
  Two behaviours of the remote \<^verbatim>\<open>/validate\<close> endpoint, one that accepts every text and
  one that reports two errors, and a manifest text with two independent problems (a
  variable name given twice and a secret whose \<^verbatim>\<open>mountPath\<close> is empty).
\<close>

definition remote_accepts :: http_post where
  "remote_accepts base path body =
     Fulfilled \<lparr>resp_success = True,
                resp_data = Defined \<lparr>valid = True, errors = None, warnings = None\<rparr>,
                resp_error = None, resp_message = None\<rparr>"

definition remote_rejects :: http_post where
  "remote_rejects base path body =
     Fulfilled \<lparr>resp_success = True,
                resp_data = Defined \<lparr>valid = False,
                                  errors = Some [''duplicate var K'', ''empty mountPath''],
                                  warnings = None\<rparr>,
                resp_error = None, resp_message = None\<rparr>"

definition two_problem_manifest :: string where
  \<open>two_problem_manifest =
     ''application:\<newline>  name: "x"\<newline>  pods:\<newline>    - name: "a"\<newline>      image: "img"\<newline>      vars:\<newline>        K: "1"\<newline>        K: "2"\<newline>      secrets:\<newline>        - name: "s"\<newline>          data: "d"\<newline>          mountPath: ""\<newline>          fileName: "f"\<newline>''\<close>

section \<open>Structural equality and two Applications with one rendering\<close>

text \<open>
  \<open>app_content\<close> is the coarser structure that ignores the order of a pod's variables
  (the mapping from names to values instead of the sequence of entries): the
  field-order-insensitive equality of the specification is equality of \<open>app_content\<close>.
  \<open>escaping_app\<close> has one variable whose value contains a double quote and a line feed;
  \<open>two_vars_app\<close> has two plain variables.
\<close>

type_synonym pod_content =
  "string \<times> string \<times> int list \<times> (string \<rightharpoonup> string) \<times> SecretConfig list"

definition pod_content :: "PodConfig \<Rightarrow> pod_content" where
  "pod_content pod =
     (pod_name pod, image pod, ports_of pod, map_of (vars_of pod), secrets_of pod)"

definition app_content :: "NexlayerYaml \<Rightarrow> string \<times> pod_content list" where
  "app_content yaml = (app_name (application yaml), map pod_content (pods (application yaml)))"

definition escaping_app :: NexlayerYaml where
  \<open>escaping_app =
     \<lparr>application = \<lparr>app_name = ''x'', pods =
        [\<lparr>pod_name = ''a'', image = ''img'', servicePorts = None,
          vars = Some [(''A'', ''1"\<newline>        B: "2'')], secrets = None\<rparr>]\<rparr>\<rparr>\<close>

definition two_vars_app :: NexlayerYaml where
  \<open>two_vars_app =
     \<lparr>application = \<lparr>app_name = ''x'', pods =
        [\<lparr>pod_name = ''a'', image = ''img'', servicePorts = None,
          vars = Some [(''A'', ''1''), (''B'', ''2'')], secrets = None\<rparr>]\<rparr>\<rparr>\<close>

section \<open>The folds of the source compute the derived forms\<close>

lemma foldl_append_step:
  assumes "\<And>acc x. f acc x = acc @ g x"
  shows "foldl f acc xs = acc @ concat (map g xs)"
  using assms by (induction xs arbitrary: acc) simp_all

lemma yamlToString_port_fold:
  "foldl yamlToString_port acc ports = acc @ concat (map port_line ports)"
  by (rule foldl_append_step) (simp add: yamlToString_port_def port_line_def)

lemma yamlToString_var_fold:
  "foldl yamlToString_var acc entries = acc @ concat (map var_line entries)"
  by (rule foldl_append_step) (simp add: yamlToString_var_def var_line_def)

lemma yamlToString_secret_fold:
  "foldl yamlToString_secret acc ss = acc @ concat (map secret_lines ss)"
  by (rule foldl_append_step) (simp add: yamlToString_secret_def secret_lines_def)

lemma ports_guard:
  "(case servicePorts pod of
      None \<Rightarrow> y
    | Some ports \<Rightarrow> if length ports > 0 then foldl yamlToString_port (y @ h) ports else y)
   = y @ section_of h port_line (ports_of pod)"
  by (simp add: section_of_def ports_of_def yamlToString_port_fold split: option.splits)

lemma vars_guard:
  "(case vars pod of
      None \<Rightarrow> y
    | Some entries \<Rightarrow> if length entries > 0 then foldl yamlToString_var (y @ h) entries else y)
   = y @ section_of h var_line (vars_of pod)"
  by (simp add: section_of_def vars_of_def yamlToString_var_fold split: option.splits)

lemma secrets_guard:
  "(case secrets pod of
      None \<Rightarrow> y
    | Some ss \<Rightarrow> if length ss > 0 then foldl yamlToString_secret (y @ h) ss else y)
   = y @ section_of h secret_lines (secrets_of pod)"
  by (simp add: section_of_def secrets_of_def yamlToString_secret_fold split: option.splits)

lemma yamlToString_pod_block: "yamlToString_pod acc pod = acc @ pod_block pod"
  unfolding yamlToString_pod_def Let_def ports_guard vars_guard secrets_guard
    pod_block_def pod_head_def
  by (simp only: append_assoc)

lemma yamlToString_pod_fold:
  "foldl yamlToString_pod acc ps = acc @ concat (map pod_block ps)"
  by (rule foldl_append_step) (rule yamlToString_pod_block)

lemma yamlToString_blocks:
  "yamlToString yaml =
     manifest_head (app_name (application yaml)) @ concat (map pod_block (pods (application yaml)))"
  by (simp add: yamlToString_def manifest_head_def yamlToString_pod_fold)

lemma generateYaml_blocks:
  "generateYaml n ps = manifest_head n @ concat (map pod_block ps)"
  by (simp add: generateYaml_def yamlToString_blocks)

lemma generateNexlayerYaml_port_fold:
  "foldl generateNexlayerYaml_port acc ports = acc @ concat (map file_port_line ports)"
  by (rule foldl_append_step) (simp add: generateNexlayerYaml_port_def file_port_line_def)

lemma generateNexlayerYaml_var_fold:
  "foldl generateNexlayerYaml_var acc entries = acc @ concat (map file_var_line entries)"
  by (rule foldl_append_step) (simp add: generateNexlayerYaml_var_def file_var_line_def)

lemma file_ports_guard:
  "(case servicePorts pod of
      None \<Rightarrow> y
    | Some ports \<Rightarrow> if length ports > 0 then foldl generateNexlayerYaml_port (y @ h) ports else y)
   = y @ section_of h file_port_line (ports_of pod)"
  by (simp add: section_of_def ports_of_def generateNexlayerYaml_port_fold split: option.splits)

lemma file_vars_guard:
  "(case vars pod of
      None \<Rightarrow> y
    | Some entries \<Rightarrow>
        if length entries > 0 then foldl generateNexlayerYaml_var (y @ h) entries else y)
   = y @ section_of h file_var_line (vars_of pod)"
  by (simp add: section_of_def vars_of_def generateNexlayerYaml_var_fold split: option.splits)

lemma generateNexlayerYaml_pod_block:
  "generateNexlayerYaml_pod acc pod = acc @ file_pod_block pod"
  unfolding generateNexlayerYaml_pod_def Let_def file_ports_guard file_vars_guard
    file_pod_block_def file_pod_head_def
  by (simp only: append_assoc)

lemma generateNexlayerYaml_pod_fold:
  "foldl generateNexlayerYaml_pod acc ps = acc @ concat (map file_pod_block ps)"
  by (rule foldl_append_step) (rule generateNexlayerYaml_pod_block)

lemma generateNexlayerYaml_blocks:
  "generateNexlayerYaml params =
     file_head (applicationName params) @ concat (map file_pod_block (params_pods params))"
  by (simp add: generateNexlayerYaml_def file_head_def generateNexlayerYaml_pod_fold)

lemma show_int_examples:
  "show_int 0 = ''0''" "show_int 1 = ''1''" "show_int 80 = ''80''"
  "show_int 65535 = ''65535''" "show_int 65536 = ''65536''"
  by (simp_all add: show_int_def digit_char_def show_nat.simps)

lemmas block_defs =
  manifest_head_def pod_block_def pod_head_def section_of_def port_line_def var_line_def
  secret_lines_def ports_of_def vars_of_def secrets_of_def

section \<open>Construction performs no check\<close>

text \<open>
  Claim C2 says that building an Application from an empty application name, or from an
  empty pod list, fails with InvalidSpec and produces no manifest. \<^verbatim>\<open>generateYaml\<close>,
  the only construction path of the client, has no failing branch: at both inputs it
  returns a manifest.
\<close>

theorem generateYaml_empties_counterexample:
  \<open>generateYaml '''' [\<lparr>pod_name = ''a'', image = ''img'', servicePorts = None, vars = None,
                        secrets = None\<rparr>]
     = ''application:\<newline>  name: ""\<newline>  pods:\<newline>    - name: "a"\<newline>      image: "img"\<newline>''
   \<and> generateYaml ''x'' [] = ''application:\<newline>  name: "x"\<newline>  pods:\<newline>''\<close>
  by (simp add: generateYaml_blocks block_defs)

text \<open>
  C2, amended: \<^verbatim>\<open>generateYaml\<close> checks neither the application name nor the pod
  list. For the empty name it returns the manifest whose name scalar is the empty quoted
  string, followed by the block of every pod; for the empty pod list it returns the manifest
  head alone.
\<close>

theorem generateYaml_accepts_empties:
  \<open>generateYaml '''' ps = ''application:\<newline>  name: ""\<newline>  pods:\<newline>'' @ concat (map pod_block ps)
   \<and> generateYaml n [] = ''application:\<newline>  name: "'' @ n @ ''"\<newline>  pods:\<newline>''\<close>
  by (simp add: generateYaml_blocks manifest_head_def)

text \<open>
  Claim C3 says that construction fails with InvalidSpec when a \<^verbatim>\<open>servicePorts\<close> entry
  is 0 or 65536. \<^verbatim>\<open>generateYaml\<close> renders both like any other number.
\<close>

theorem generateYaml_port_range_counterexample:
  \<open>generateYaml ''x'' [\<lparr>pod_name = ''a'', image = ''img'', servicePorts = Some [0, 65536],
                         vars = None, secrets = None\<rparr>]
     = ''application:\<newline>  name: "x"\<newline>  pods:\<newline>    - name: "a"\<newline>      image: "img"\<newline>      servicePorts:\<newline>        - 0\<newline>        - 65536\<newline>''\<close>
  by (simp add: generateYaml_blocks block_defs show_int_examples)

section \<open>Service ports are rendered as given\<close>

text \<open>
  Claim C8 says that duplicate \<^verbatim>\<open>servicePorts\<close> entries are collapsed, each port
  appearing at most once in the rendered output. Nothing in the source removes a
  duplicate: the list \<^verbatim>\<open>[80, 80]\<close> is rendered with two lines.
\<close>

theorem servicePorts_duplicates_counterexample:
  \<open>generateYaml ''x'' [\<lparr>pod_name = ''a'', image = ''img'', servicePorts = Some [80, 80],
                         vars = None, secrets = None\<rparr>]
     = ''application:\<newline>  name: "x"\<newline>  pods:\<newline>    - name: "a"\<newline>      image: "img"\<newline>      servicePorts:\<newline>        - 80\<newline>        - 80\<newline>''\<close>
  by (simp add: generateYaml_blocks block_defs show_int_examples)

section \<open>Absent and empty collections are omitted\<close>

lemma section_of_Nil: "section_of header line [] = []"
  by (simp add: section_of_def)

lemma ports_of_Nil_iff: "ports_of pod = [] \<longleftrightarrow> servicePorts pod = None \<or> servicePorts pod = Some []"
  by (simp add: ports_of_def split: option.splits)

lemma vars_of_Nil_iff: "vars_of pod = [] \<longleftrightarrow> vars pod = None \<or> vars pod = Some []"
  by (simp add: vars_of_def split: option.splits)

lemma secrets_of_Nil_iff: "secrets_of pod = [] \<longleftrightarrow> secrets pod = None \<or> secrets pod = Some []"
  by (simp add: secrets_of_def split: option.splits)

text \<open>
  Claim C7: when a pod's \<^verbatim>\<open>servicePorts\<close>, \<^verbatim>\<open>vars\<close> or \<^verbatim>\<open>secrets\<close> is absent or
  empty, the rendered text has no such key. For each of the three collections, a pod in
  which it is absent or empty is rendered by \<^verbatim>\<open>yamlToString\<close> as the pod's head lines
  followed by the other sections only; a pod in which all three are absent or empty is
  rendered as its name and image lines alone. The same holds for the two collections that
  \<^verbatim>\<open>FileGenerator.generateNexlayerYaml\<close> renders.
\<close>

theorem optional_collections_omitted:
  \<open>((servicePorts pod = None \<or> servicePorts pod = Some []) \<longrightarrow>
      yamlToString_pod acc pod
        = acc @ pod_head pod
          @ section_of ''      vars:\<newline>'' var_line (vars_of pod)
          @ section_of ''      secrets:\<newline>'' secret_lines (secrets_of pod))
   \<and> ((vars pod = None \<or> vars pod = Some []) \<longrightarrow>
      yamlToString_pod acc pod
        = acc @ pod_head pod
          @ section_of ''      servicePorts:\<newline>'' port_line (ports_of pod)
          @ section_of ''      secrets:\<newline>'' secret_lines (secrets_of pod))
   \<and> ((secrets pod = None \<or> secrets pod = Some []) \<longrightarrow>
      yamlToString_pod acc pod
        = acc @ pod_head pod
          @ section_of ''      servicePorts:\<newline>'' port_line (ports_of pod)
          @ section_of ''      vars:\<newline>'' var_line (vars_of pod))
   \<and> ((servicePorts pod = None \<or> servicePorts pod = Some []) \<and> (vars pod = None \<or> vars pod = Some [])
       \<and> (secrets pod = None \<or> secrets pod = Some []) \<longrightarrow>
      yamlToString_pod acc pod
        = acc @ ''    - name: "'' @ pod_name pod @ ''"\<newline>      image: "'' @ image pod @ ''"\<newline>'')
   \<and> ((servicePorts pod = None \<or> servicePorts pod = Some []) \<longrightarrow>
      generateNexlayerYaml_pod acc pod
        = acc @ file_pod_head pod @ section_of ''\<newline>    vars:'' file_var_line (vars_of pod))
   \<and> ((vars pod = None \<or> vars pod = Some []) \<longrightarrow>
      generateNexlayerYaml_pod acc pod
        = acc @ file_pod_head pod
          @ section_of ''\<newline>    servicePorts:'' file_port_line (ports_of pod))
   \<and> ((servicePorts pod = None \<or> servicePorts pod = Some []) \<and> (vars pod = None \<or> vars pod = Some []) \<longrightarrow>
      generateNexlayerYaml_pod acc pod
        = acc @ ''\<newline>  - name: '' @ pod_name pod @ ''\<newline>    image: '' @ image pod)\<close>
  unfolding ports_of_Nil_iff [symmetric] vars_of_Nil_iff [symmetric] secrets_of_Nil_iff [symmetric]
    yamlToString_pod_block generateNexlayerYaml_pod_block pod_block_def file_pod_block_def
  by (simp add: section_of_Nil pod_head_def file_pod_head_def)

theorem optional_collections_omitted_witness:
  \<open>(servicePorts \<lparr>pod_name = ''web'', image = ''nginx'', servicePorts = Some [], vars = None,
                    secrets = Some []\<rparr> = Some [])
   \<and> yamlToString_pod ''''
        \<lparr>pod_name = ''web'', image = ''nginx'', servicePorts = Some [], vars = None,
         secrets = Some []\<rparr>
       = ''    - name: "web"\<newline>      image: "nginx"\<newline>''
   \<and> generateNexlayerYaml_pod ''''
        \<lparr>pod_name = ''web'', image = ''nginx'', servicePorts = Some [], vars = None,
         secrets = Some []\<rparr>
       = ''\<newline>  - name: web\<newline>    image: nginx''\<close>
  using optional_collections_omitted
    [of "\<lparr>pod_name = ''web'', image = ''nginx'', servicePorts = Some [], vars = None,
          secrets = Some []\<rparr>" "''''"]
  by (simp add: block_defs file_pod_head_def)

section \<open>A pod with service ports, in both serializers\<close>

lemma pod_block_ports:
  assumes "servicePorts pod = Some ports" and "ports \<noteq> []"
  shows \<open>pod_block pod
     = ''    - name: "'' @ pod_name pod @ ''"\<newline>      image: "'' @ image pod @ ''"\<newline>''
       @ ''      servicePorts:\<newline>'' @ concat (map port_line ports)
       @ section_of ''      vars:\<newline>'' var_line (vars_of pod)
       @ section_of ''      secrets:\<newline>'' secret_lines (secrets_of pod)\<close>
proof -
  from assms have "section_of ''      servicePorts:\<newline>'' port_line (ports_of pod)
      = ''      servicePorts:\<newline>'' @ concat (map port_line ports)"
    by (simp add: section_of_def ports_of_def)
  then show ?thesis
    by (simp add: pod_block_def pod_head_def)
qed

lemma file_pod_block_ports:
  assumes "servicePorts pod = Some ports" and "ports \<noteq> []"
  shows \<open>file_pod_block pod
     = ''\<newline>  - name: '' @ pod_name pod @ ''\<newline>    image: '' @ image pod
       @ ''\<newline>    servicePorts:'' @ concat (map file_port_line ports)
       @ section_of ''\<newline>    vars:'' file_var_line (vars_of pod)\<close>
proof -
  from assms have "section_of ''\<newline>    servicePorts:'' file_port_line (ports_of pod)
      = ''\<newline>    servicePorts:'' @ concat (map file_port_line ports)"
    by (simp add: section_of_def ports_of_def)
  then show ?thesis
    by (simp add: file_pod_block_def file_pod_head_def)
qed

lemma generateYaml_split:
  "generateYaml n (front @ pod # rest)
     = manifest_head n @ concat (map pod_block front) @ pod_block pod @ concat (map pod_block rest)"
  by (simp add: generateYaml_blocks)

lemma generateNexlayerYaml_split:
  "generateNexlayerYaml \<lparr>applicationName = n, params_pods = front @ pod # rest, outputPath = out\<rparr>
     = file_head n @ concat (map file_pod_block front) @ file_pod_block pod
       @ concat (map file_pod_block rest)"
  by (simp add: generateNexlayerYaml_blocks)

text \<open>
  C3, amended: \<^verbatim>\<open>generateYaml\<close> checks no port range. For every application name and
  every pod list, a pod whose \<^verbatim>\<open>servicePorts\<close> is a non-empty list of safe integers is
  rendered, between the blocks of the pods before it and of the pods after it, as its name
  and image lines, a \<^verbatim>\<open>servicePorts\<close> section with one line per entry of the list, in
  the order given, each entry printed by \<open>show_int\<close> as its decimal numeral, and then its
  \<^verbatim>\<open>vars\<close> and \<^verbatim>\<open>secrets\<close> sections. The numerals of 0 and 65536 are \<^verbatim>\<open>0\<close> and
  \<^verbatim>\<open>65536\<close>, as those of 1 and 65535 are \<^verbatim>\<open>1\<close> and \<^verbatim>\<open>65535\<close>.
\<close>

theorem generateYaml_any_port:
  \<open>servicePorts pod = Some ports \<Longrightarrow> ports \<noteq> [] \<Longrightarrow> list_all isSafeInteger ports \<Longrightarrow>
     generateYaml n (front @ pod # rest)
       = ''application:\<newline>  name: "'' @ n @ ''"\<newline>  pods:\<newline>''
         @ concat (map pod_block front)
         @ ''    - name: "'' @ pod_name pod @ ''"\<newline>      image: "'' @ image pod @ ''"\<newline>''
         @ ''      servicePorts:\<newline>''
         @ concat (map (\<lambda>port. ''        - '' @ show_int port @ ''\<newline>'') ports)
         @ section_of ''      vars:\<newline>'' var_line (vars_of pod)
         @ section_of ''      secrets:\<newline>'' secret_lines (secrets_of pod)
         @ concat (map pod_block rest)
     \<and> show_int 0 = ''0'' \<and> show_int 1 = ''1''
     \<and> show_int 65535 = ''65535'' \<and> show_int 65536 = ''65536''\<close>
proof -
  assume ports: "servicePorts pod = Some ports" "ports \<noteq> []"
  have line: "(\<lambda>port. ''        - '' @ show_int port @ ''\<newline>'') = port_line"
    by (rule ext) (simp add: port_line_def)
  show ?thesis
    unfolding line generateYaml_split pod_block_ports [OF ports]
    by (simp add: manifest_head_def show_int_examples)
qed

theorem generateYaml_any_port_witness:
  \<open>servicePorts \<lparr>pod_name = ''web'', image = ''nginx:1.25'',
                  servicePorts = Some [0, 65536, 1, 65535],
                  vars = Some [(''MODE'', ''prod'')], secrets = None\<rparr>
     = Some [0, 65536, 1, 65535]
   \<and> list_all isSafeInteger [0, 65536, 1, 65535]
   \<and> generateYaml ''blog''
        [\<lparr>pod_name = ''web'', image = ''nginx:1.25'', servicePorts = Some [0, 65536, 1, 65535],
          vars = Some [(''MODE'', ''prod'')], secrets = None\<rparr>]
     = ''application:\<newline>  name: "blog"\<newline>  pods:\<newline>    - name: "web"\<newline>      image: "nginx:1.25"\<newline>      servicePorts:\<newline>        - 0\<newline>        - 65536\<newline>        - 1\<newline>        - 65535\<newline>      vars:\<newline>        MODE: "prod"\<newline>''\<close>
proof -
  have safe: "list_all isSafeInteger [0, 65536, 1, 65535]"
    by (simp add: isSafeInteger_def)
  have field: "servicePorts \<lparr>pod_name = ''web'', image = ''nginx:1.25'',
                  servicePorts = Some [0, 65536, 1, 65535],
                  vars = Some [(''MODE'', ''prod'')], secrets = None\<rparr>
     = Some [0, 65536, 1, 65535]"
    by simp
  from generateYaml_any_port [OF field _ safe, of "''blog''" "[]" "[]"] field safe
  show ?thesis
    by (simp add: section_of_def var_line_def vars_of_def secrets_of_def)
qed

text \<open>
  C8, amended: \<^verbatim>\<open>servicePorts\<close> is treated as a sequence, not as a set. For every
  application name and every pod list, both serializers render a pod whose
  \<^verbatim>\<open>servicePorts\<close> is a non-empty list of safe integers with a \<^verbatim>\<open>servicePorts\<close>
  section that has one line per entry of that list, in the order given, each entry printed
  by \<open>show_int\<close> as its decimal numeral: no entry is dropped, so a port that occurs twice
  in the list is rendered on two lines.
\<close>

theorem servicePorts_rendered_per_entry:
  \<open>servicePorts pod = Some ports \<Longrightarrow> ports \<noteq> [] \<Longrightarrow> list_all isSafeInteger ports \<Longrightarrow>
     generateYaml n (front @ pod # rest)
       = ''application:\<newline>  name: "'' @ n @ ''"\<newline>  pods:\<newline>''
         @ concat (map pod_block front)
         @ ''    - name: "'' @ pod_name pod @ ''"\<newline>      image: "'' @ image pod @ ''"\<newline>''
         @ ''      servicePorts:\<newline>''
         @ concat (map (\<lambda>port. ''        - '' @ show_int port @ ''\<newline>'') ports)
         @ section_of ''      vars:\<newline>'' var_line (vars_of pod)
         @ section_of ''      secrets:\<newline>'' secret_lines (secrets_of pod)
         @ concat (map pod_block rest)
     \<and> generateNexlayerYaml
         \<lparr>applicationName = n, params_pods = front @ pod # rest, outputPath = out\<rparr>
       = ''application:\<newline>  name: '' @ n @ ''\<newline>  description: '' @ n
         @ '' application\<newline>\<newline>pods:''
         @ concat (map file_pod_block front)
         @ ''\<newline>  - name: '' @ pod_name pod @ ''\<newline>    image: '' @ image pod
         @ ''\<newline>    servicePorts:''
         @ concat (map (\<lambda>port. ''\<newline>      - '' @ show_int port) ports)
         @ section_of ''\<newline>    vars:'' file_var_line (vars_of pod)
         @ concat (map file_pod_block rest)\<close>
proof -
  assume ports: "servicePorts pod = Some ports" "ports \<noteq> []"
  have line: "(\<lambda>port. ''        - '' @ show_int port @ ''\<newline>'') = port_line"
    by (rule ext) (simp add: port_line_def)
  have file_line: "(\<lambda>port. ''\<newline>      - '' @ show_int port) = file_port_line"
    by (rule ext) (simp add: file_port_line_def)
  show ?thesis
    unfolding line file_line generateYaml_split generateNexlayerYaml_split
      pod_block_ports [OF ports] file_pod_block_ports [OF ports]
    by (simp add: manifest_head_def file_head_def)
qed

theorem servicePorts_rendered_per_entry_witness:
  \<open>servicePorts \<lparr>pod_name = ''web'', image = ''nginx:1.25'', servicePorts = Some [80, 443, 80],
                  vars = None, secrets = None\<rparr>
     = Some [80, 443, 80]
   \<and> list_all isSafeInteger [80, 443, 80]
   \<and> generateYaml ''blog''
        [\<lparr>pod_name = ''web'', image = ''nginx:1.25'', servicePorts = Some [80, 443, 80],
          vars = None, secrets = None\<rparr>]
     = ''application:\<newline>  name: "blog"\<newline>  pods:\<newline>    - name: "web"\<newline>      image: "nginx:1.25"\<newline>      servicePorts:\<newline>        - 80\<newline>        - 443\<newline>        - 80\<newline>''
   \<and> generateNexlayerYaml
        \<lparr>applicationName = ''blog'',
         params_pods =
           [\<lparr>pod_name = ''web'', image = ''nginx:1.25'', servicePorts = Some [80, 443, 80],
             vars = None, secrets = None\<rparr>],
         outputPath = None\<rparr>
     = ''application:\<newline>  name: blog\<newline>  description: blog application\<newline>\<newline>pods:\<newline>  - name: web\<newline>    image: nginx:1.25\<newline>    servicePorts:\<newline>      - 80\<newline>      - 443\<newline>      - 80''\<close>
proof -
  have safe: "list_all isSafeInteger [80, 443, 80]"
    by (simp add: isSafeInteger_def)
  have field: "servicePorts \<lparr>pod_name = ''web'', image = ''nginx:1.25'',
                  servicePorts = Some [80, 443, 80], vars = None, secrets = None\<rparr>
     = Some [80, 443, 80]"
    by simp
  have numerals: "show_int 80 = ''80''" "show_int 443 = ''443''"
    by (simp_all add: show_int_def digit_char_def show_nat.simps)
  from servicePorts_rendered_per_entry [OF field _ safe, of "''blog''" "[]" "[]" None] field safe
  show ?thesis
    by (simp add: section_of_def vars_of_def secrets_of_def numerals)
qed

section \<open>The client is constructed once\<close>

lemma getClient_cached: "nexlayerClient s = Some c \<Longrightarrow> getClient t s = (c, s)"
  by (simp add: getClient_def)

lemma getClient_caches: "getClient t s = (c, s') \<Longrightarrow> nexlayerClient s' = Some c"
  by (auto simp: getClient_def Let_def split: option.splits)

lemma getClient_calls_cached:
  "nexlayerClient s = Some c \<Longrightarrow> getClient_calls ts s = (replicate (length ts) c, s)"
  by (induction ts) (simp_all add: getClient_cached)

text \<open>
  Claim C9: once a client has been constructed, every later \<^verbatim>\<open>getClient\<close> call returns
  that cached instance, whatever \<^verbatim>\<open>sessionToken\<close> it is given. If a first call
  \<^verbatim>\<open>getClient(t0)\<close> returns the client \<open>c\<close>, then every sequence of later calls, with
  any token arguments \<open>ts\<close>, returns \<open>c\<close> each time and leaves the module state as it
  was; and when that first call constructed the client, its configuration holds the first
  call's token and the fixed base URL.
\<close>

theorem getClient_first_call_wins:
  "getClient t0 s0 = (c, s1) \<Longrightarrow>
     getClient_calls ts s1 = (replicate (length ts) c, s1)
     \<and> nexlayerClient s1 = Some c
     \<and> (nexlayerClient s0 = None \<longrightarrow>
          sessionToken (config c) = t0
          \<and> baseUrl (config c) = Some ''https://app.nexlayer.io''
          \<and> baseURL c = ''https://app.nexlayer.io'')"
proof -
  assume first: "getClient t0 s0 = (c, s1)"
  then have cached: "nexlayerClient s1 = Some c"
    by (rule getClient_caches)
  have fresh: "sessionToken (config c) = t0
      \<and> baseUrl (config c) = Some ''https://app.nexlayer.io''
      \<and> baseURL c = ''https://app.nexlayer.io''" if "nexlayerClient s0 = None"
    using first that by (auto simp: getClient_def new_NexlayerApiClient_def Let_def)
  from cached fresh show ?thesis
    by (simp add: getClient_calls_cached)
qed

theorem getClient_first_call_wins_witness:
  "getClient (Some ''first'') \<lparr>nexlayerClient = None\<rparr>
     = (\<lparr>config = \<lparr>sessionToken = Some ''first'', baseUrl = Some ''https://app.nexlayer.io''\<rparr>,
         baseURL = ''https://app.nexlayer.io''\<rparr>,
        \<lparr>nexlayerClient =
           Some \<lparr>config = \<lparr>sessionToken = Some ''first'',
                            baseUrl = Some ''https://app.nexlayer.io''\<rparr>,
                 baseURL = ''https://app.nexlayer.io''\<rparr>\<rparr>)
   \<and> fst (getClient_calls [Some ''second'', None]
            \<lparr>nexlayerClient =
               Some \<lparr>config = \<lparr>sessionToken = Some ''first'',
                                baseUrl = Some ''https://app.nexlayer.io''\<rparr>,
                     baseURL = ''https://app.nexlayer.io''\<rparr>\<rparr>)
       = [\<lparr>config = \<lparr>sessionToken = Some ''first'', baseUrl = Some ''https://app.nexlayer.io''\<rparr>,
           baseURL = ''https://app.nexlayer.io''\<rparr>,
          \<lparr>config = \<lparr>sessionToken = Some ''first'', baseUrl = Some ''https://app.nexlayer.io''\<rparr>,
           baseURL = ''https://app.nexlayer.io''\<rparr>]"
proof -
  have first: "getClient (Some ''first'') \<lparr>nexlayerClient = None\<rparr>
     = (\<lparr>config = \<lparr>sessionToken = Some ''first'', baseUrl = Some ''https://app.nexlayer.io''\<rparr>,
         baseURL = ''https://app.nexlayer.io''\<rparr>,
        \<lparr>nexlayerClient =
           Some \<lparr>config = \<lparr>sessionToken = Some ''first'',
                            baseUrl = Some ''https://app.nexlayer.io''\<rparr>,
                 baseURL = ''https://app.nexlayer.io''\<rparr>\<rparr>)"
    by (simp add: getClient_def new_NexlayerApiClient_def Let_def)
  from getClient_first_call_wins [OF first, of "[Some ''second'', None]"]
  have "fst (getClient_calls [Some ''second'', None]
            \<lparr>nexlayerClient =
               Some \<lparr>config = \<lparr>sessionToken = Some ''first'',
                                baseUrl = Some ''https://app.nexlayer.io''\<rparr>,
                     baseURL = ''https://app.nexlayer.io''\<rparr>\<rparr>)
       = replicate (length [Some ''second'', None :: string option])
           \<lparr>config = \<lparr>sessionToken = Some ''first'', baseUrl = Some ''https://app.nexlayer.io''\<rparr>,
            baseURL = ''https://app.nexlayer.io''\<rparr>"
    by (simp only: fst_conv)
  then show ?thesis
    using first by (simp only: list.size replicate.simps One_nat_def add_Suc add_0 simp_thms)
qed

section \<open>Rendering depends on the structure only\<close>

lemma pod_block_view: "pod_view p = pod_view q \<Longrightarrow> pod_block p = pod_block q"
  by (simp add: pod_view_def pod_block_def pod_head_def)

lemma pod_blocks_view:
  "map pod_view ps = map pod_view qs \<Longrightarrow> map pod_block ps = map pod_block qs"
proof (induction ps arbitrary: qs)
  case Nil
  then show ?case by simp
next
  case (Cons p ps)
  then obtain q qs' where qs: "qs = q # qs'"
    by (cases qs) auto
  with Cons.prems have head: "pod_view p = pod_view q"
    and tail: "map pod_view ps = map pod_view qs'"
    by simp_all
  from head have "pod_block p = pod_block q"
    by (rule pod_block_view)
  moreover from tail have "map pod_block ps = map pod_block qs'"
    by (rule Cons.IH)
  ultimately show ?case
    using qs by simp
qed

lemma file_pod_block_view: "pod_view p = pod_view q \<Longrightarrow> file_pod_block p = file_pod_block q"
  by (simp add: pod_view_def file_pod_block_def file_pod_head_def)

lemma file_pod_blocks_view:
  "map pod_view ps = map pod_view qs \<Longrightarrow> map file_pod_block ps = map file_pod_block qs"
proof (induction ps arbitrary: qs)
  case Nil
  then show ?case by simp
next
  case (Cons p ps)
  then obtain q qs' where qs: "qs = q # qs'"
    by (cases qs) auto
  with Cons.prems have head: "pod_view p = pod_view q"
    and tail: "map pod_view ps = map pod_view qs'"
    by simp_all
  from head have "file_pod_block p = file_pod_block q"
    by (rule file_pod_block_view)
  moreover from tail have "map file_pod_block ps = map file_pod_block qs'"
    by (rule Cons.IH)
  ultimately show ?case
    using qs by simp
qed

text \<open>
  Claim C5: rendering is deterministic, the same Application always renders to the same
  bytes. The rendered text is a function of the Application's structure alone (its name
  and, per pod, the name, the image and the sequences of ports, of variable entries in
  their iteration order, and of secrets): two Applications with the same structure render
  to identical text, and so do two calls on the same Application. The same holds for
  \<^verbatim>\<open>FileGenerator.generateNexlayerYaml\<close>.
\<close>

theorem yamlToString_deterministic:
  "app_view a = app_view b \<Longrightarrow>
     yamlToString a = yamlToString b
     \<and> generateYaml (app_name (application a)) (pods (application a))
         = generateYaml (app_name (application b)) (pods (application b))
     \<and> generateNexlayerYaml
           \<lparr>applicationName = app_name (application a), params_pods = pods (application a),
            outputPath = out\<rparr>
         = generateNexlayerYaml
           \<lparr>applicationName = app_name (application b), params_pods = pods (application b),
            outputPath = out'\<rparr>"
proof -
  assume "app_view a = app_view b"
  then have names: "app_name (application a) = app_name (application b)"
    and views: "map pod_view (pods (application a)) = map pod_view (pods (application b))"
    by (simp_all add: app_view_def)
  from views have blocks:
    "map pod_block (pods (application a)) = map pod_block (pods (application b))"
    by (rule pod_blocks_view)
  from views have file_blocks:
    "map file_pod_block (pods (application a)) = map file_pod_block (pods (application b))"
    by (rule file_pod_blocks_view)
  show ?thesis
    by (simp add: yamlToString_blocks generateYaml_blocks generateNexlayerYaml_blocks
        names blocks file_blocks)
qed

theorem yamlToString_deterministic_witness:
  \<open>app_view \<lparr>application = \<lparr>app_name = ''blog'', pods =
       [\<lparr>pod_name = ''web'', image = ''nginx:1.25'', servicePorts = Some [80],
         vars = Some [(''MODE'', ''prod'')], secrets = None\<rparr>]\<rparr>\<rparr>
     = app_view \<lparr>application = \<lparr>app_name = ''blog'', pods =
       [\<lparr>pod_name = ''web'', image = ''nginx:1.25'', servicePorts = Some [80],
         vars = Some [(''MODE'', ''prod'')], secrets = Some []\<rparr>]\<rparr>\<rparr>
   \<and> yamlToString \<lparr>application = \<lparr>app_name = ''blog'', pods =
       [\<lparr>pod_name = ''web'', image = ''nginx:1.25'', servicePorts = Some [80],
         vars = Some [(''MODE'', ''prod'')], secrets = None\<rparr>]\<rparr>\<rparr>
     = yamlToString \<lparr>application = \<lparr>app_name = ''blog'', pods =
       [\<lparr>pod_name = ''web'', image = ''nginx:1.25'', servicePorts = Some [80],
         vars = Some [(''MODE'', ''prod'')], secrets = Some []\<rparr>]\<rparr>\<rparr>\<close>
proof -
  have same: \<open>app_view \<lparr>application = \<lparr>app_name = ''blog'', pods =
       [\<lparr>pod_name = ''web'', image = ''nginx:1.25'', servicePorts = Some [80],
         vars = Some [(''MODE'', ''prod'')], secrets = None\<rparr>]\<rparr>\<rparr>
     = app_view \<lparr>application = \<lparr>app_name = ''blog'', pods =
       [\<lparr>pod_name = ''web'', image = ''nginx:1.25'', servicePorts = Some [80],
         vars = Some [(''MODE'', ''prod'')], secrets = Some []\<rparr>]\<rparr>\<rparr>\<close>
    by (simp add: app_view_def pod_view_def ports_of_def vars_of_def secrets_of_def)
  from yamlToString_deterministic [OF same] have
    \<open>yamlToString \<lparr>application = \<lparr>app_name = ''blog'', pods =
       [\<lparr>pod_name = ''web'', image = ''nginx:1.25'', servicePorts = Some [80],
         vars = Some [(''MODE'', ''prod'')], secrets = None\<rparr>]\<rparr>\<rparr>
     = yamlToString \<lparr>application = \<lparr>app_name = ''blog'', pods =
       [\<lparr>pod_name = ''web'', image = ''nginx:1.25'', servicePorts = Some [80],
         vars = Some [(''MODE'', ''prod'')], secrets = Some []\<rparr>]\<rparr>\<rparr>\<close>
    by (rule conjunct1)
  with same show ?thesis
    by (rule conjI)
qed

section \<open>The file generator's serializer\<close>

lemma file_pod_block_secrets: "file_pod_block (pod\<lparr>secrets := x\<rparr>) = file_pod_block pod"
  by (simp add: file_pod_block_def file_pod_head_def ports_of_def vars_of_def)

lemma quoted_name_differs: "n @ CHR ''\<newline>'' # x \<noteq> CHR 0x22 # n @ y"
proof (induction n)
  case Nil
  show ?case by simp
next
  case (Cons c n)
  show ?case
  proof
    assume "(c # n) @ CHR ''\<newline>'' # x = CHR 0x22 # (c # n) @ y"
    then have "c = CHR 0x22" and "n @ CHR ''\<newline>'' # x = c # n @ y"
      by simp_all
    then have "n @ CHR ''\<newline>'' # x = CHR 0x22 # n @ y"
      by simp
    with Cons.IH show False
      by simp
  qed
qed

lemma heads_differ: "file_head n @ x \<noteq> manifest_head n @ y"
proof -
  have "n @ CHR ''\<newline>'' # (''  description: '' @ n @ '' application\<newline>\<newline>pods:'' @ x)
      \<noteq> CHR 0x22 # n @ (CHR 0x22 # ''\<newline>  pods:\<newline>'' @ y)"
    by (rule quoted_name_differs)
  then show ?thesis
    by (simp add: file_head_def manifest_head_def)
qed

text \<open>
  Claim C10: \<^verbatim>\<open>FileGenerator.generateNexlayerYaml\<close> never emits secrets. Its result
  does not depend on the \<^verbatim>\<open>secrets\<close> field of any pod: replacing every pod's secrets by
  anything else (\<open>f\<close> chooses the replacement per pod) leaves the text unchanged, so neither
  a secrets key nor a payload reaches it. The text starts with the application name, a
  description line and a top-level \<^verbatim>\<open>pods:\<close> key, followed by the pod blocks, whereas
  the client's serializer writes no description and nests \<^verbatim>\<open>pods:\<close> under
  \<^verbatim>\<open>application:\<close>; the two serializers never return the same text.
\<close>

theorem generateNexlayerYaml_never_emits_secrets:
  \<open>generateNexlayerYaml
       (params\<lparr>params_pods := map (\<lambda>pod. pod\<lparr>secrets := f pod\<rparr>) (params_pods params)\<rparr>)
     = generateNexlayerYaml params
   \<and> generateNexlayerYaml params
     = ''application:\<newline>  name: '' @ applicationName params
       @ ''\<newline>  description: '' @ applicationName params @ '' application\<newline>\<newline>pods:''
       @ concat (map file_pod_block (params_pods params))
   \<and> generateYaml (applicationName params) (params_pods params)
     = ''application:\<newline>  name: "'' @ applicationName params @ ''"\<newline>  pods:\<newline>''
       @ concat (map pod_block (params_pods params))
   \<and> generateNexlayerYaml params \<noteq> generateYaml (applicationName params) (params_pods params)\<close>
proof -
  have a: "generateNexlayerYaml
       (params\<lparr>params_pods := map (\<lambda>pod. pod\<lparr>secrets := f pod\<rparr>) (params_pods params)\<rparr>)
     = generateNexlayerYaml params"
    by (simp add: generateNexlayerYaml_blocks o_def file_pod_block_secrets)
  have b: \<open>generateNexlayerYaml params
     = ''application:\<newline>  name: '' @ applicationName params
       @ ''\<newline>  description: '' @ applicationName params @ '' application\<newline>\<newline>pods:''
       @ concat (map file_pod_block (params_pods params))\<close>
    by (simp add: generateNexlayerYaml_blocks file_head_def)
  have c: \<open>generateYaml (applicationName params) (params_pods params)
     = ''application:\<newline>  name: "'' @ applicationName params @ ''"\<newline>  pods:\<newline>''
       @ concat (map pod_block (params_pods params))\<close>
    by (simp add: generateYaml_blocks manifest_head_def)
  have d: "generateNexlayerYaml params \<noteq> generateYaml (applicationName params) (params_pods params)"
    unfolding generateNexlayerYaml_blocks generateYaml_blocks by (rule heads_differ)
  from a b c d show ?thesis
    by (intro conjI)
qed


section \<open>Validation is delegated to the remote endpoint\<close>

lemma js_join_Cons: "js_join sep (e # es) = e @ concat (map (\<lambda>x. sep @ x) es)"
  by (induction es arbitrary: e) simp_all

lemma js_join_Nil_iff:
  assumes "sep \<noteq> []"
  shows "js_join sep (e # es) = [] \<longleftrightarrow> e = [] \<and> es = []"
proof (cases es)
  case Nil
  then show ?thesis by simp
next
  case (Cons x xs)
  with assms show ?thesis
    by (simp only: js_join_Cons) simp
qed

lemma or_else_js_join:
  assumes "sep \<noteq> []"
  shows "or_else (map_option (js_join sep) errs) d
     = (case errs of
          None \<Rightarrow> d
        | Some es \<Rightarrow>
            (case es of
               [] \<Rightarrow> d
             | e # es' \<Rightarrow> if e = [] \<and> es' = [] then d else e @ concat (map (\<lambda>x. sep @ x) es')))"
proof (cases errs)
  case None
  then show ?thesis by (simp add: or_else_def)
next
  case (Some es)
  show ?thesis
  proof (cases es)
    case Nil
    with Some show ?thesis by (simp add: or_else_def)
  next
    case (Cons e es')
    have "or_else (Some (js_join sep (e # es'))) d
        = (if e = [] \<and> es' = [] then d else e @ concat (map (\<lambda>x. sep @ x) es'))"
    proof (cases "e = [] \<and> es' = []")
      case True
      then have "js_join sep (e # es') = []"
        by (simp only: js_join_Nil_iff [OF assms])
      with True show ?thesis
        by (simp add: or_else_def)
    next
      case False
      then have "js_join sep (e # es') \<noteq> []"
        by (simp only: js_join_Nil_iff [OF assms]) simp
      then have "or_else (Some (js_join sep (e # es'))) d = js_join sep (e # es')"
        by (simp add: or_else_def del: js_join.simps)
      also have "\<dots> = e @ concat (map (\<lambda>x. sep @ x) es')"
        by (rule js_join_Cons)
      finally show ?thesis
        using False by auto
    qed
    with Some Cons show ?thesis by simp
  qed
qed

lemma validate_yaml_tool_fulfilled:
  assumes "post (baseURL (fst (getClient None s))) ''/validate'' (yamlContent params)
             = Fulfilled response"
    and "resp_data response = Defined result"
  shows \<open>fst (validate_yaml_tool post params s)
     = (if valid result
        then ''YAML is valid!''
             @ (case warnings result of
                  None \<Rightarrow> []
                | Some ws \<Rightarrow> if length ws \<noteq> 0 then ''\<newline>Warnings: '' @ js_join '', '' ws else [])
        else ''YAML validation failed:\<newline>Errors: ''
             @ or_else (map_option (js_join ''\<newline>'') (errors result)) ''Unknown error'')\<close>
proof -
  obtain c s' where g: "getClient None s = (c, s')"
    by (cases "getClient None s")
  with assms show ?thesis
    by (simp add: validate_yaml_tool_def validateYaml_def)
qed

text \<open>
  Claim C4 says that validation is a pure function of the in-memory model that needs no
  network call and returns every finding in \<^verbatim>\<open>errors\<close>. The only validation in the
  source posts the text to the remote endpoint: for the same manifest with two problems
  the tool answers "valid" when the endpoint accepts it and lists errors only when the
  endpoint reports them.
\<close>

theorem validate_is_remote_counterexample:
  \<open>fst (validate_yaml_tool remote_accepts \<lparr>yamlContent = two_problem_manifest\<rparr>
          \<lparr>nexlayerClient = None\<rparr>)
     = ''YAML is valid!''
   \<and> fst (validate_yaml_tool remote_rejects \<lparr>yamlContent = two_problem_manifest\<rparr>
          \<lparr>nexlayerClient = None\<rparr>)
     = ''YAML validation failed:\<newline>Errors: duplicate var K\<newline>empty mountPath''\<close>
proof -
  have g: "getClient None \<lparr>nexlayerClient = None\<rparr>
      = (new_NexlayerApiClient \<lparr>sessionToken = None, baseUrl = Some ''https://app.nexlayer.io''\<rparr>,
         \<lparr>nexlayerClient = Some (new_NexlayerApiClient
            \<lparr>sessionToken = None, baseUrl = Some ''https://app.nexlayer.io''\<rparr>)\<rparr>)"
    by (simp add: getClient_def Let_def)
  have a: \<open>fst (validate_yaml_tool remote_accepts \<lparr>yamlContent = two_problem_manifest\<rparr>
          \<lparr>nexlayerClient = None\<rparr>) = ''YAML is valid!''\<close>
    by (simp add: validate_yaml_tool_def g validateYaml_def remote_accepts_def)
  have b: \<open>fst (validate_yaml_tool remote_rejects \<lparr>yamlContent = two_problem_manifest\<rparr>
          \<lparr>nexlayerClient = None\<rparr>)
     = ''YAML validation failed:\<newline>Errors: duplicate var K\<newline>empty mountPath''\<close>
    by (simp add: validate_yaml_tool_def g validateYaml_def remote_rejects_def or_else_def)
  from a b show ?thesis
    by (rule conjI)
qed

text \<open>
  C4, amended: validation is not local. \<^verbatim>\<open>validateYaml\<close> posts the manifest text to the
  remote \<^verbatim>\<open>/validate\<close> endpoint and returns the data of the response unchanged. When
  that result is not valid, the \<^verbatim>\<open>validate-yaml\<close> tool answers
  \<^verbatim>\<open>YAML validation failed:\<close>, a line feed and \<^verbatim>\<open>Errors: \<close>, followed by all entries of
  the result's list of errors: the first entry, then each further entry behind a line feed.
  Only when the list is absent, is empty or consists of a single empty string, so that the
  joined text is empty, the tool puts \<^verbatim>\<open>Unknown error\<close> in its place.
\<close>

theorem validate_yaml_reports_all_remote_errors:
  \<open>post (baseURL (fst (getClient None s))) ''/validate'' (yamlContent params) = Fulfilled response \<Longrightarrow>
   resp_data response = Defined result \<Longrightarrow> \<not> valid result \<Longrightarrow>
     validateYaml (fst (getClient None s)) post params = Inr (Defined result)
     \<and> fst (validate_yaml_tool post params s)
       = ''YAML validation failed:\<newline>Errors: ''
         @ (case errors result of
              None \<Rightarrow> ''Unknown error''
            | Some es \<Rightarrow>
                (case es of
                   [] \<Rightarrow> ''Unknown error''
                 | e # es' \<Rightarrow>
                     if e = [] \<and> es' = [] then ''Unknown error''
                     else e @ concat (map (\<lambda>x. ''\<newline>'' @ x) es')))\<close>
proof -
  assume p: "post (baseURL (fst (getClient None s))) ''/validate'' (yamlContent params)
      = Fulfilled response"
    and d: "resp_data response = Defined result"
    and v: "\<not> valid result"
  have sep: "''\<newline>'' \<noteq> []"
    by simp
  have "validateYaml (fst (getClient None s)) post params = Inr (Defined result)"
    using p d by (simp add: validateYaml_def)
  moreover have \<open>fst (validate_yaml_tool post params s)
       = ''YAML validation failed:\<newline>Errors: ''
         @ (case errors result of
              None \<Rightarrow> ''Unknown error''
            | Some es \<Rightarrow>
                (case es of
                   [] \<Rightarrow> ''Unknown error''
                 | e # es' \<Rightarrow>
                     if e = [] \<and> es' = [] then ''Unknown error''
                     else e @ concat (map (\<lambda>x. ''\<newline>'' @ x) es')))\<close>
    unfolding validate_yaml_tool_fulfilled [where post = post and s = s and params = params, OF p d]
      or_else_js_join [OF sep, symmetric]
    using v by simp
  ultimately show ?thesis
    by (rule conjI)
qed

theorem validate_yaml_reports_all_remote_errors_witness:
  \<open>remote_rejects (baseURL (fst (getClient None \<lparr>nexlayerClient = None\<rparr>))) ''/validate''
       (yamlContent \<lparr>yamlContent = two_problem_manifest\<rparr>)
     = Fulfilled \<lparr>resp_success = True,
                  resp_data = Defined \<lparr>valid = False,
                                       errors = Some [''duplicate var K'', ''empty mountPath''],
                                       warnings = None\<rparr>,
                  resp_error = None, resp_message = None\<rparr>
   \<and> validateYaml (fst (getClient None \<lparr>nexlayerClient = None\<rparr>)) remote_rejects
         \<lparr>yamlContent = two_problem_manifest\<rparr>
     = Inr (Defined \<lparr>valid = False, errors = Some [''duplicate var K'', ''empty mountPath''],
                     warnings = None\<rparr>)
   \<and> fst (validate_yaml_tool remote_rejects \<lparr>yamlContent = two_problem_manifest\<rparr>
            \<lparr>nexlayerClient = None\<rparr>)
     = ''YAML validation failed:\<newline>Errors: duplicate var K\<newline>empty mountPath''\<close>
proof -
  have p: \<open>remote_rejects (baseURL (fst (getClient None \<lparr>nexlayerClient = None\<rparr>))) ''/validate''
       (yamlContent \<lparr>yamlContent = two_problem_manifest\<rparr>)
     = Fulfilled \<lparr>resp_success = True,
                  resp_data = Defined \<lparr>valid = False,
                                       errors = Some [''duplicate var K'', ''empty mountPath''],
                                       warnings = None\<rparr>,
                  resp_error = None, resp_message = None\<rparr>\<close>
    by (simp add: remote_rejects_def)
  from p validate_yaml_reports_all_remote_errors
    [where post = remote_rejects and s = "\<lparr>nexlayerClient = None\<rparr>"
       and params = "\<lparr>yamlContent = two_problem_manifest\<rparr>"
       and response = "\<lparr>resp_success = True,
                  resp_data = Defined \<lparr>valid = False,
                                       errors = Some [''duplicate var K'', ''empty mountPath''],
                                       warnings = None\<rparr>,
                  resp_error = None, resp_message = None\<rparr>"
       and result = "\<lparr>valid = False, errors = Some [''duplicate var K'', ''empty mountPath''],
                 warnings = None\<rparr>"]
  have \<open>validateYaml (fst (getClient None \<lparr>nexlayerClient = None\<rparr>)) remote_rejects
         \<lparr>yamlContent = two_problem_manifest\<rparr>
     = Inr (Defined \<lparr>valid = False, errors = Some [''duplicate var K'', ''empty mountPath''],
                     warnings = None\<rparr>)
   \<and> fst (validate_yaml_tool remote_rejects \<lparr>yamlContent = two_problem_manifest\<rparr>
            \<lparr>nexlayerClient = None\<rparr>)
     = ''YAML validation failed:\<newline>Errors: duplicate var K\<newline>empty mountPath''\<close>
    by simp
  with p show ?thesis
    by (rule conjI)
qed

section \<open>Decimal numerals are injective\<close>

lemma digit_char_in: "digit_char d \<in> set ''0123456789''"
  unfolding digit_char_def by (rule nth_mem) simp

lemma digit_char_inj:
  assumes "a < 10" and "b < 10" and "digit_char a = digit_char b"
  shows "a = b"
proof -
  have "distinct ''0123456789''"
    by simp
  moreover have "a < length ''0123456789''" and "b < length ''0123456789''"
    using assms by simp_all
  moreover have "''0123456789'' ! a = ''0123456789'' ! b"
    using assms by (simp add: digit_char_def)
  ultimately show ?thesis
    by (simp only: nth_eq_iff_index_eq)
qed

lemma show_nat_small: "n < 10 \<Longrightarrow> show_nat n = [digit_char n]"
  by (subst show_nat.simps) simp

lemma show_nat_large:
  "\<not> n < 10 \<Longrightarrow> show_nat n = show_nat (n div 10) @ [digit_char (n mod 10)]"
  by (subst show_nat.simps) simp

lemma show_nat_not_Nil: "show_nat n \<noteq> []"
  by (cases "n < 10") (simp_all add: show_nat_small show_nat_large)

lemma show_nat_large_length: "\<not> n < 10 \<Longrightarrow> 2 \<le> length (show_nat n)"
proof -
  assume "\<not> n < 10"
  then have "length (show_nat n) = Suc (length (show_nat (n div 10)))"
    by (simp add: show_nat_large)
  moreover have "length (show_nat (n div 10)) \<noteq> 0"
    using show_nat_not_Nil [of "n div 10"] by simp
  ultimately show ?thesis
    by arith
qed

lemma show_nat_digits: "set (show_nat n) \<subseteq> set ''0123456789''"
proof (induction n rule: show_nat.induct)
  case (1 n)
  show ?case
  proof (cases "n < 10")
    case True
    show ?thesis
      unfolding show_nat_small [OF True] using digit_char_in [of n] by simp
  next
    case False
    with "1.IH" have "set (show_nat (n div 10)) \<subseteq> set ''0123456789''"
      by simp
    then show ?thesis
      unfolding show_nat_large [OF False] using digit_char_in [of "n mod 10"] by simp
  qed
qed

lemma show_nat_inj: "show_nat n = show_nat m \<Longrightarrow> n = m"
proof (induction n arbitrary: m rule: show_nat.induct)
  case (1 n)
  show ?case
  proof (cases "n < 10")
    case n: True
    show ?thesis
    proof (cases "m < 10")
      case True
      with n "1.prems" show ?thesis
        by (simp add: show_nat_small digit_char_inj)
    next
      case False
      then have "2 \<le> length (show_nat m)"
        by (rule show_nat_large_length)
      moreover have "length (show_nat n) = 1"
        by (simp add: show_nat_small [OF n])
      ultimately show ?thesis
        using "1.prems" by simp
    qed
  next
    case n: False
    show ?thesis
    proof (cases "m < 10")
      case True
      from n have "2 \<le> length (show_nat n)"
        by (rule show_nat_large_length)
      moreover have "length (show_nat m) = 1"
        by (simp add: show_nat_small [OF True])
      ultimately show ?thesis
        using "1.prems" by simp
    next
      case False
      with n "1.prems" have hi: "show_nat (n div 10) = show_nat (m div 10)"
        and lo: "digit_char (n mod 10) = digit_char (m mod 10)"
        by (simp_all add: show_nat_large)
      from n hi have "n div 10 = m div 10"
        by (rule "1.IH")
      moreover from lo have "n mod 10 = m mod 10"
        by (intro digit_char_inj) simp_all
      ultimately show ?thesis
        by (metis div_mult_mod_eq)
    qed
  qed
qed

lemma show_int_no_newline: "CHR ''\<newline>'' \<notin> set (show_int i)"
  using show_nat_digits [of "nat i"] show_nat_digits [of "nat (- i)"]
  by (auto simp: show_int_def)

lemma show_int_inj: "show_int i = show_int j \<Longrightarrow> i = j"
proof -
  assume eq: "show_int i = show_int j"
  have no_minus: "hd (show_nat n) \<noteq> CHR ''-''" for n
  proof -
    have "hd (show_nat n) \<in> set (show_nat n)"
      using show_nat_not_Nil by (rule hd_in_set)
    with show_nat_digits [of n] show ?thesis
      by auto
  qed
  consider "i < 0" "j < 0" | "i < 0" "\<not> j < 0" | "\<not> i < 0" "j < 0" | "\<not> i < 0" "\<not> j < 0"
    by blast
  then show ?thesis
  proof cases
    case 1
    with eq have "show_nat (nat (- i)) = show_nat (nat (- j))"
      by (simp add: show_int_def)
    then have "nat (- i) = nat (- j)"
      by (rule show_nat_inj)
    with 1 show ?thesis
      by simp
  next
    case 2
    with eq have "CHR ''-'' # show_nat (nat (- i)) = show_nat (nat j)"
      by (simp add: show_int_def)
    then have "hd (show_nat (nat j)) = CHR ''-''"
      by (metis list.sel(1))
    with no_minus show ?thesis
      by blast
  next
    case 3
    with eq have "show_nat (nat i) = CHR ''-'' # show_nat (nat (- j))"
      by (simp add: show_int_def)
    then have "hd (show_nat (nat i)) = CHR ''-''"
      by (metis list.sel(1))
    with no_minus show ?thesis
      by blast
  next
    case 4
    with eq have "show_nat (nat i) = show_nat (nat j)"
      by (simp add: show_int_def)
    then have "nat i = nat j"
      by (rule show_nat_inj)
    with 4 show ?thesis
      by simp
  qed
qed

section \<open>Quoting and field order of the two serializers\<close>




section \<open>The rendered text determines a quote-free Application\<close>

lemma sep_cancel:
  assumes "c \<notin> set s" and "c \<notin> set t" and "s @ c # r = t @ c # r'"
  shows "s = t \<and> r = r'"
  using assms
proof (induction s arbitrary: t)
  case Nil
  then show ?case by (cases t) auto
next
  case (Cons a s)
  then show ?case by (cases t) auto
qed

lemma quoted_cancel:
  "quote_free a \<Longrightarrow> quote_free b \<Longrightarrow>
     (a @ CHR 0x22 # r = b @ CHR 0x22 # r') = (a = b \<and> r = r')"
  unfolding quote_free_def using sep_cancel [of "CHR 0x22" a b r r'] by blast

lemma key_cancel:
  assumes "quote_free a" and "quote_free b"
  shows "(a @ CHR '':'' # CHR '' '' # CHR 0x22 # r = b @ CHR '':'' # CHR '' '' # CHR 0x22 # r')
     = (a = b \<and> r = r')"
proof
  assume "a @ CHR '':'' # CHR '' '' # CHR 0x22 # r = b @ CHR '':'' # CHR '' '' # CHR 0x22 # r'"
  then have "(a @ '': '') @ CHR 0x22 # r = (b @ '': '') @ CHR 0x22 # r'"
    by simp
  moreover have "quote_free (a @ '': '')" and "quote_free (b @ '': '')"
    using assms by (simp_all add: quote_free_def)
  ultimately have "a @ '': '' = b @ '': '' \<and> r = r'"
    by (simp only: quoted_cancel)
  then show "a = b \<and> r = r'"
    by simp
next
  assume "a = b \<and> r = r'"
  then show "a @ CHR '':'' # CHR '' '' # CHR 0x22 # r = b @ CHR '':'' # CHR '' '' # CHR 0x22 # r'"
    by simp
qed

lemma port_line_cancel:
  assumes "port_line p @ r = port_line q @ r'"
  shows "p = q \<and> r = r'"
proof -
  from assms have "show_int p @ CHR ''\<newline>'' # r = show_int q @ CHR ''\<newline>'' # r'"
    by (simp add: port_line_def)
  with show_int_no_newline [of p] show_int_no_newline [of q]
  have "show_int p = show_int q \<and> r = r'"
    by (intro sep_cancel)
  then show ?thesis
    by (simp add: show_int_inj)
qed

lemma var_line_cancel:
  assumes "quote_free_var kv" and "quote_free_var kv'" and "var_line kv @ r = var_line kv' @ r'"
  shows "kv = kv' \<and> r = r'"
  using assms by (simp add: quote_free_var_def var_line_def key_cancel quoted_cancel prod_eq_iff)

lemma secret_lines_cancel:
  assumes "quote_free_secret s" and "quote_free_secret s'"
    and "secret_lines s @ r = secret_lines s' @ r'"
  shows "s = s' \<and> r = r'"
  using assms by (simp add: quote_free_secret_def secret_lines_def quoted_cancel)

lemma entries_cancel:
  assumes cancel: "\<And>x y r r'. P x \<Longrightarrow> P y \<Longrightarrow> f x @ r = f y @ r' \<Longrightarrow> x = y \<and> r = r'"
    and starts: "\<And>x. prefix ''        '' (f x)"
  shows "\<not> prefix ''        '' r \<Longrightarrow> \<not> prefix ''        '' r' \<Longrightarrow> list_all P xs \<Longrightarrow>
     list_all P ys \<Longrightarrow> concat (map f xs) @ r = concat (map f ys) @ r' \<Longrightarrow> xs = ys \<and> r = r'"
proof (induction xs arbitrary: ys)
  case Nil
  show ?case
  proof (cases ys)
    case Nil
    with Nil.prems show ?thesis by simp
  next
    case (Cons y ys')
    with Nil.prems have "r = f y @ concat (map f ys') @ r'"
      by simp
    with starts [of y] have "prefix ''        '' r"
      by (simp only: prefix_append) blast
    with Nil.prems show ?thesis by simp
  qed
next
  case (Cons x xs)
  show ?case
  proof (cases ys)
    case Nil
    with Cons.prems have "r' = f x @ concat (map f xs) @ r"
      by simp
    with starts [of x] have "prefix ''        '' r'"
      by (simp only: prefix_append) blast
    with Cons.prems show ?thesis by simp
  next
    case ys: (Cons y ys')
    with Cons.prems have "f x @ (concat (map f xs) @ r) = f y @ (concat (map f ys') @ r')"
      and px: "P x" and py: "P y" and pxs: "list_all P xs" and pys: "list_all P ys'"
      by simp_all
    with cancel have head: "x = y" and rest: "concat (map f xs) @ r = concat (map f ys') @ r'"
      by blast+
    from Cons.prems(1,2) pxs pys rest have "xs = ys' \<and> r = r'"
      by (rule Cons.IH)
    with head ys show ?thesis by simp
  qed
qed

lemma section_cancel:
  assumes cancel: "\<And>x y r r'. P x \<Longrightarrow> P y \<Longrightarrow> f x @ r = f y @ r' \<Longrightarrow> x = y \<and> r = r'"
    and starts: "\<And>x. prefix ''        '' (f x)"
    and low: "\<not> prefix ''        '' r" "\<not> prefix ''        '' r'"
    and hdr: "\<not> prefix h r" "\<not> prefix h r'"
    and all: "list_all P xs" "list_all P ys"
    and eq: "section_of h f xs @ r = section_of h f ys @ r'"
  shows "xs = ys \<and> r = r'"
proof (cases "xs = []")
  case xs: True
  show ?thesis
  proof (cases "ys = []")
    case True
    with xs eq show ?thesis by (simp add: section_of_def)
  next
    case False
    with xs eq have "r = h @ concat (map f ys) @ r'"
      by (simp add: section_of_def)
    then have "prefix h r"
      by simp
    with hdr show ?thesis by simp
  qed
next
  case xs: False
  show ?thesis
  proof (cases "ys = []")
    case True
    with xs eq have "r' = h @ concat (map f xs) @ r"
      by (simp add: section_of_def)
    then have "prefix h r'"
      by simp
    with hdr show ?thesis by simp
  next
    case False
    with xs eq have "concat (map f xs) @ r = concat (map f ys) @ r'"
      by (simp add: section_of_def)
    with cancel starts low all show ?thesis
      by (intro entries_cancel [where P = P and f = f]) 
  qed
qed

lemma port_line_starts: "prefix ''        '' (port_line p)"
  by (simp add: port_line_def)

lemma var_line_starts: "prefix ''        '' (var_line kv)"
  by (simp add: var_line_def)

lemma secret_lines_starts: "prefix ''        '' (secret_lines s)"
  by (simp add: secret_lines_def)

lemma below_pod:
  assumes "\<not> prefix ''     '' r"
  shows "\<not> prefix ''        '' r" and "\<not> prefix ''      secrets:\<newline>'' r"
    and "\<not> prefix ''      vars:\<newline>'' r" and "\<not> prefix ''      servicePorts:\<newline>'' r"
  using assms by (auto simp: prefix_def)

lemma after_vars:
  assumes "\<not> prefix ''     '' r"
  shows "\<not> prefix ''        '' (section_of ''      secrets:\<newline>'' f xs @ r)"
    and "\<not> prefix ''      vars:\<newline>'' (section_of ''      secrets:\<newline>'' f xs @ r)"
    and "\<not> prefix ''      servicePorts:\<newline>'' (section_of ''      secrets:\<newline>'' f xs @ r)"
  using below_pod [OF assms] by (simp_all add: section_of_def)

lemma after_ports:
  assumes "\<not> prefix ''     '' r"
  shows "\<not> prefix ''        ''
            (section_of ''      vars:\<newline>'' g ys @ section_of ''      secrets:\<newline>'' f xs @ r)"
    and "\<not> prefix ''      servicePorts:\<newline>''
            (section_of ''      vars:\<newline>'' g ys @ section_of ''      secrets:\<newline>'' f xs @ r)"
  using after_vars [OF assms, of f xs] by (simp_all add: section_of_def [of _ g])

lemma pod_block_cancel:
  assumes p: "quote_free_pod p" and q: "quote_free_pod q"
    and r: "\<not> prefix ''     '' r" and r': "\<not> prefix ''     '' r'"
    and eq: "pod_block p @ r = pod_block q @ r'"
  shows "pod_view p = pod_view q \<and> r = r'"
proof -
  let ?secrets = "\<lambda>x. section_of ''      secrets:\<newline>'' secret_lines (secrets_of x)"
  let ?vars = "\<lambda>x. section_of ''      vars:\<newline>'' var_line (vars_of x)"
  let ?ports = "\<lambda>x. section_of ''      servicePorts:\<newline>'' port_line (ports_of x)"
  from p q eq have name: "pod_name p = pod_name q" and image: "image p = image q"
    and sections: "?ports p @ (?vars p @ ?secrets p @ r) = ?ports q @ (?vars q @ ?secrets q @ r')"
    by (simp_all add: pod_block_def pod_head_def quote_free_pod_def quoted_cancel)
  have "ports_of p = ports_of q \<and> ?vars p @ ?secrets p @ r = ?vars q @ ?secrets q @ r'"
  proof (rule section_cancel [where P = "\<lambda>_. True" and f = port_line])
    show "x = y \<and> s = s'" if "port_line x @ s = port_line y @ s'" for x y s s'
      using that by (rule port_line_cancel)
    show "?ports p @ (?vars p @ ?secrets p @ r) = ?ports q @ (?vars q @ ?secrets q @ r')"
      by (rule sections)
  qed (simp_all add: port_line_starts after_ports [OF r] after_ports [OF r'] list_all_iff)
  then have ports: "ports_of p = ports_of q"
    and sections': "?vars p @ (?secrets p @ r) = ?vars q @ (?secrets q @ r')"
    by simp_all
  have "vars_of p = vars_of q \<and> ?secrets p @ r = ?secrets q @ r'"
  proof (rule section_cancel [where P = quote_free_var and f = var_line])
    show "x = y \<and> s = s'"
      if "quote_free_var x" and "quote_free_var y" and "var_line x @ s = var_line y @ s'"
      for x y s s'
      using that by (rule var_line_cancel)
    show "?vars p @ (?secrets p @ r) = ?vars q @ (?secrets q @ r')"
      by (rule sections')
    show "list_all quote_free_var (vars_of p)" and "list_all quote_free_var (vars_of q)"
      using p q by (simp_all add: quote_free_pod_def)
  qed (simp_all add: var_line_starts after_vars [OF r] after_vars [OF r'])
  then have vars: "vars_of p = vars_of q" and sections'': "?secrets p @ r = ?secrets q @ r'"
    by simp_all
  have "secrets_of p = secrets_of q \<and> r = r'"
  proof (rule section_cancel [where P = quote_free_secret and f = secret_lines])
    show "x = y \<and> s = s'"
      if "quote_free_secret x" and "quote_free_secret y"
        and "secret_lines x @ s = secret_lines y @ s'"
      for x y s s'
      using that by (rule secret_lines_cancel)
    show "?secrets p @ r = ?secrets q @ r'"
      by (rule sections'')
    show "list_all quote_free_secret (secrets_of p)" and "list_all quote_free_secret (secrets_of q)"
      using p q by (simp_all add: quote_free_pod_def)
  qed (simp_all add: secret_lines_starts below_pod [OF r] below_pod [OF r'])
  with name image ports vars show ?thesis
    by (simp add: pod_view_def)
qed

lemma pod_blocks_below: "\<not> prefix ''     '' (concat (map pod_block ps))"
  by (cases ps) (simp_all add: pod_block_def pod_head_def)

lemma pod_block_not_Nil: "pod_block p @ r \<noteq> []"
  by (simp add: pod_block_def pod_head_def)

lemma pod_blocks_cancel:
  "list_all quote_free_pod ps \<Longrightarrow> list_all quote_free_pod qs \<Longrightarrow>
     concat (map pod_block ps) = concat (map pod_block qs) \<Longrightarrow> map pod_view ps = map pod_view qs"
proof (induction ps arbitrary: qs)
  case Nil
  show ?case
  proof (cases qs)
    case Nil
    then show ?thesis by simp
  next
    case (Cons q qs')
    with Nil.prems have "pod_block q @ concat (map pod_block qs') = []"
      by simp
    with pod_block_not_Nil show ?thesis
      by blast
  qed
next
  case (Cons p ps)
  show ?case
  proof (cases qs)
    case Nil
    with Cons.prems have "pod_block p @ concat (map pod_block ps) = []"
      by simp
    with pod_block_not_Nil show ?thesis
      by blast
  next
    case qs: (Cons q qs')
    with Cons.prems
    have eq: "pod_block p @ concat (map pod_block ps) = pod_block q @ concat (map pod_block qs')"
      and p: "quote_free_pod p" and q: "quote_free_pod q"
      and ps: "list_all quote_free_pod ps" and qs': "list_all quote_free_pod qs'"
      by simp_all
    from p q pod_blocks_below pod_blocks_below eq
    have "pod_view p = pod_view q \<and> concat (map pod_block ps) = concat (map pod_block qs')"
      by (rule pod_block_cancel)
    moreover from this ps qs' have "map pod_view ps = map pod_view qs'"
      by (intro Cons.IH) simp_all
    ultimately show ?thesis
      using qs by simp
  qed
qed

lemma yamlToString_cancel:
  assumes "quote_free_application a" and "quote_free_application b"
    and "yamlToString a = yamlToString b"
  shows "app_view a = app_view b"
proof -
  from assms have "app_name (application a) = app_name (application b)"
    and "concat (map pod_block (pods (application a)))
       = concat (map pod_block (pods (application b)))"
    by (simp_all add: yamlToString_blocks manifest_head_def quote_free_application_def
        quoted_cancel)
  moreover from this(2) assms
  have "map pod_view (pods (application a)) = map pod_view (pods (application b))"
    by (intro pod_blocks_cancel) (simp_all add: quote_free_application_def)
  ultimately show ?thesis
    by (simp add: app_view_def)
qed

lemma escaping_app_valid: "valid_application escaping_app"
  by (simp add: valid_application_def valid_pod_def escaping_app_def ports_of_def vars_of_def
      secrets_of_def)

lemma two_vars_app_valid: "valid_application two_vars_app"
  by (simp add: valid_application_def valid_pod_def two_vars_app_def ports_of_def vars_of_def
      secrets_of_def)

lemma escaping_app_rendering: "yamlToString escaping_app = yamlToString two_vars_app"
  by (simp add: yamlToString_blocks escaping_app_def two_vars_app_def block_defs)

lemma escaping_app_content: "app_content escaping_app \<noteq> app_content two_vars_app"
proof
  assume "app_content escaping_app = app_content two_vars_app"
  then have \<open>map_of [(''A'', ''1"\<newline>        B: "2'')] = map_of [(''A'', ''1''), (''B'', ''2'')]\<close>
    by (simp add: app_content_def pod_content_def escaping_app_def two_vars_app_def vars_of_def)
  then have \<open>map_of [(''A'', ''1"\<newline>        B: "2'')] ''B''
      = map_of [(''A'', ''1''), (''B'', ''2'')] ''B''\<close>
    by (rule arg_cong [where f = "\<lambda>m. m ''B''"])
  then show False
    by simp
qed

text \<open>
  Claim C1 says that for every valid Application parsing the rendered text gives back a
  structurally equal Application. The source has no parser, and none can exist:
  \<^verbatim>\<open>yamlToString\<close> quotes string values without escaping them, so two valid
  Applications that differ in their variables render to the same text.
\<close>

theorem round_trip_counterexample:
  "\<not> (\<exists>parse. \<forall>a. valid_application a \<longrightarrow>
        (\<exists>a'. parse (yamlToString a) = Some a' \<and> app_content a' = app_content a))"
proof
  assume "\<exists>parse. \<forall>a. valid_application a \<longrightarrow>
        (\<exists>a'. parse (yamlToString a) = Some a' \<and> app_content a' = app_content a)"
  then obtain parse :: "string \<Rightarrow> NexlayerYaml option" where parse:
    "\<And>a. valid_application a \<Longrightarrow>
       \<exists>a'. parse (yamlToString a) = Some a' \<and> app_content a' = app_content a"
    by blast
  from parse [OF escaping_app_valid] obtain a1
    where a1: "parse (yamlToString escaping_app) = Some a1"
      "app_content a1 = app_content escaping_app"
    by blast
  from parse [OF two_vars_app_valid] obtain a2
    where a2: "parse (yamlToString two_vars_app) = Some a2"
      "app_content a2 = app_content two_vars_app"
    by blast
  from a1(1) a2(1) have "a1 = a2"
    by (simp add: escaping_app_rendering)
  with a1(2) a2(2) have "app_content escaping_app = app_content two_vars_app"
    by simp
  with escaping_app_content show False
    by blast
qed

text \<open>
  C1, amended: on the Applications none of whose strings (names, images, variable names
  and values, secret fields) contains a double quote, the text that \<^verbatim>\<open>yamlToString\<close>
  renders determines the Application's structure: two such Applications with the same text
  have the same name and, pod by pod, the same name, image, ports, variable entries and
  secrets, an absent collection counting as the empty one. Hence a parse exists that, on
  the rendering of every such Application, succeeds and yields its structure.
\<close>

theorem yamlToString_round_trip_quote_free:
  "(\<forall>a b. quote_free_application a \<and> quote_free_application b \<and> yamlToString a = yamlToString b
      \<longrightarrow> app_view a = app_view b)
   \<and> (\<exists>parse. \<forall>a. quote_free_application a \<longrightarrow> parse (yamlToString a) = Some (app_view a))"
proof
  show inj: "\<forall>a b. quote_free_application a \<and> quote_free_application b
      \<and> yamlToString a = yamlToString b \<longrightarrow> app_view a = app_view b"
    using yamlToString_cancel by blast
  define parse where "parse t =
    (if \<exists>a. quote_free_application a \<and> yamlToString a = t
     then Some (app_view (SOME a. quote_free_application a \<and> yamlToString a = t))
     else None)" for t
  have "parse (yamlToString a) = Some (app_view a)" if a: "quote_free_application a" for a
  proof -
    let ?b = "SOME b. quote_free_application b \<and> yamlToString b = yamlToString a"
    from a have "quote_free_application ?b \<and> yamlToString ?b = yamlToString a"
      by (intro someI [where P = "\<lambda>b. quote_free_application b \<and> yamlToString b = yamlToString a"])
        simp
    with a inj have "app_view ?b = app_view a"
      by blast
    with a show ?thesis
      unfolding parse_def by auto
  qed
  then show "\<exists>parse. \<forall>a. quote_free_application a \<longrightarrow> parse (yamlToString a) = Some (app_view a)"
    by blast
qed

theorem yamlToString_round_trip_quote_free_witness:
  \<open>quote_free_application two_vars_app
   \<and> quote_free_application
       \<lparr>application = \<lparr>app_name = ''x'', pods =
          [\<lparr>pod_name = ''a'', image = ''img'', servicePorts = Some [],
            vars = Some [(''A'', ''1''), (''B'', ''2'')], secrets = Some []\<rparr>]\<rparr>\<rparr>
   \<and> yamlToString two_vars_app
     = yamlToString
         \<lparr>application = \<lparr>app_name = ''x'', pods =
            [\<lparr>pod_name = ''a'', image = ''img'', servicePorts = Some [],
              vars = Some [(''A'', ''1''), (''B'', ''2'')], secrets = Some []\<rparr>]\<rparr>\<rparr>
   \<and> app_view two_vars_app
     = app_view
         \<lparr>application = \<lparr>app_name = ''x'', pods =
            [\<lparr>pod_name = ''a'', image = ''img'', servicePorts = Some [],
              vars = Some [(''A'', ''1''), (''B'', ''2'')], secrets = Some []\<rparr>]\<rparr>\<rparr>\<close>
proof -
  let ?b = "\<lparr>application = \<lparr>app_name = ''x'', pods =
          [\<lparr>pod_name = ''a'', image = ''img'', servicePorts = Some [],
            vars = Some [(''A'', ''1''), (''B'', ''2'')], secrets = Some []\<rparr>]\<rparr>\<rparr>"
  have a: "quote_free_application two_vars_app"
    by (simp add: quote_free_application_def quote_free_pod_def quote_free_var_def
        quote_free_def two_vars_app_def vars_of_def secrets_of_def)
  have b: "quote_free_application ?b"
    by (simp add: quote_free_application_def quote_free_pod_def quote_free_var_def
        quote_free_def vars_of_def secrets_of_def)
  have eq: "yamlToString two_vars_app = yamlToString ?b"
    by (simp add: yamlToString_blocks two_vars_app_def block_defs)
  from yamlToString_round_trip_quote_free a b eq have "app_view two_vars_app = app_view ?b"
    by blast
  with a b eq show ?thesis
    by (intro conjI)
qed

end
